theory Spec2Isabelle
  imports Main "HOL-Library.Word"
begin

section \<open>Names\<close>

text \<open>
  A \<open>Name\<close> is a sequence of components. The class is declared outside the
  sources; the store below only calls \<open>toUri()\<close>, the constructor from a URI string
  and \<open>getPrefix(-1)\<close> on it.
\<close>

type_synonym Name = "string list"

text \<open>
  Modelled from the spec: \<open>Name::getPrefix\<close> is missing from the sources; "a key name is
  the identity name with one additional path component appended", so \<open>getPrefix(-1)\<close>
  (the only call the sources make) is the name without its last component. A
  non-negative count keeps that many leading components.
\<close>

definition getPrefix :: "Name \<Rightarrow> int \<Rightarrow> Name" where
  "getPrefix n k =
     (if k < 0 then take (nat (int (length n) + k)) n else take (nat k) n)"

text \<open>
  \<open>Name::toUri()\<close> and the constructor \<open>Name(uri)\<close> are missing from the sources as
  well. Every operation of the store takes \<open>toUri\<close> as its first argument, and
  \<open>getDefaultIdentity\<close> takes the constructor, so that the theorems hold for whatever
  these two functions are. The two functions below are a plain instance (components
  joined by slashes, without escaping), used where a concrete one is needed.
\<close>

definition plain_toUri :: "Name \<Rightarrow> string" where
  "plain_toUri n = (if n = [] then ''/'' else concat (map (\<lambda>c. CHR ''/'' # c) n))"

fun split_slash :: "string \<Rightarrow> string list" where
  "split_slash [] = [[]]"
| "split_slash (c # cs) =
     (if c = CHR ''/'' then [] # split_slash cs
      else (case split_slash cs of
              [] \<Rightarrow> [[c]]
            | w # ws \<Rightarrow> (c # w) # ws))"

definition plain_fromUri :: "string \<Rightarrow> Name" where
  "plain_fromUri s = filter (\<lambda>c. c \<noteq> []) (split_slash s)"


section \<open>The in-memory store of identities, keys and certificates\<close>

type_synonym byte = "8 word"

type_synonym PublicKey = "byte list"

text \<open>
  The enumeration \<open>KeyType\<close> is declared outside the sources; the store names
  \<open>KEY_TYPE_RSA\<close> only.
\<close>

datatype KeyType = KEY_TYPE_RSA | KEY_TYPE_AES

record KeyRecord =
  getKeyType :: KeyType
  getKey :: PublicKey

text \<open>
  What \<open>addCertificate\<close> reads from an \<open>IdentityCertificate\<close>: its name, the name of the
  key it certifies and the key itself.
\<close>

record IdentityCertificate =
  getName :: Name
  getPublicKeyName :: Name
  getPublicKeyInfo :: PublicKey

record SecPublicInfoMemory =
  m_identityStore :: "string list"
  m_keyStore :: "string \<rightharpoonup> KeyRecord"
  m_certificateStore :: "string \<rightharpoonup> IdentityCertificate"
  m_defaultIdentity :: string
  m_defaultKeyName :: Name
  m_defaultCert :: Name

datatype Error = Error string

definition empty_store :: SecPublicInfoMemory where
  "empty_store =
     \<lparr>m_identityStore = [], m_keyStore = Map.empty, m_certificateStore = Map.empty,
      m_defaultIdentity = [], m_defaultKeyName = [], m_defaultCert = []\<rparr>"

definition doesIdentityExist ::
  "(Name \<Rightarrow> string) \<Rightarrow> SecPublicInfoMemory \<Rightarrow> Name \<Rightarrow> bool" where
  "doesIdentityExist toUri st identityName =
     (let identityUri = toUri identityName in identityUri \<in> set (m_identityStore st))"

definition addIdentity ::
  "(Name \<Rightarrow> string) \<Rightarrow> SecPublicInfoMemory \<Rightarrow> Name \<Rightarrow> SecPublicInfoMemory" where
  "addIdentity toUri st identityName =
     (let identityUri = toUri identityName in
      if identityUri \<in> set (m_identityStore st) then st
      else st\<lparr>m_identityStore := m_identityStore st @ [identityUri]\<rparr>)"

definition doesPublicKeyExist ::
  "(Name \<Rightarrow> string) \<Rightarrow> SecPublicInfoMemory \<Rightarrow> Name \<Rightarrow> bool" where
  "doesPublicKeyExist toUri st keyName = (m_keyStore st (toUri keyName) \<noteq> None)"

definition addPublicKey ::
  "(Name \<Rightarrow> string) \<Rightarrow> SecPublicInfoMemory \<Rightarrow> Name \<Rightarrow> KeyType \<Rightarrow> PublicKey
     \<Rightarrow> SecPublicInfoMemory" where
  "addPublicKey toUri st keyName keyType publicKey =
     (let identityName = getPrefix keyName (- 1);
          st1 = addIdentity toUri st identityName
      in st1\<lparr>m_keyStore := (m_keyStore st1)
                (toUri keyName \<mapsto> \<lparr>getKeyType = keyType, getKey = publicKey\<rparr>)\<rparr>)"

text \<open>
  The lookups are methods of the store object; they return their result together with
  the store they leave behind. A miss throws \<open>Error\<close> with the message the source builds.
\<close>

definition getPublicKey ::
  "(Name \<Rightarrow> string) \<Rightarrow> SecPublicInfoMemory \<Rightarrow> Name
     \<Rightarrow> (Error + PublicKey) \<times> SecPublicInfoMemory" where
  "getPublicKey toUri st keyName =
     (case m_keyStore st (toUri keyName) of
        None \<Rightarrow> (Inl (Error (''SecPublicInfoMemory::getPublicKey  '' @ toUri keyName)), st)
      | Some record \<Rightarrow> (Inr (getKey record), st))"

definition doesCertificateExist ::
  "(Name \<Rightarrow> string) \<Rightarrow> SecPublicInfoMemory \<Rightarrow> Name \<Rightarrow> bool" where
  "doesCertificateExist toUri st certificateName =
     (m_certificateStore st (toUri certificateName) \<noteq> None)"

definition addCertificate ::
  "(Name \<Rightarrow> string) \<Rightarrow> SecPublicInfoMemory \<Rightarrow> IdentityCertificate
     \<Rightarrow> SecPublicInfoMemory" where
  "addCertificate toUri st certificate =
     (let certificateName = getName certificate;
          keyName = getPublicKeyName certificate;
          identity = getPrefix keyName (- 1);
          st1 = addIdentity toUri st identity;
          st2 = addPublicKey toUri st1 keyName KEY_TYPE_RSA (getPublicKeyInfo certificate)
      in st2\<lparr>m_certificateStore := (m_certificateStore st2)
                (toUri certificateName \<mapsto> certificate)\<rparr>)"

definition getCertificate ::
  "(Name \<Rightarrow> string) \<Rightarrow> SecPublicInfoMemory \<Rightarrow> Name
     \<Rightarrow> (Error + IdentityCertificate) \<times> SecPublicInfoMemory" where
  "getCertificate toUri st certificateName =
     (case m_certificateStore st (toUri certificateName) of
        None \<Rightarrow>
          (Inl (Error (''SecPublicInfoMemory::getCertificate  '' @ toUri certificateName)), st)
      | Some record \<Rightarrow> (Inr record, st))"

definition getDefaultIdentity :: "(string \<Rightarrow> Name) \<Rightarrow> SecPublicInfoMemory \<Rightarrow> Name" where
  "getDefaultIdentity fromUri st = fromUri (m_defaultIdentity st)"

definition setDefaultIdentityInternal ::
  "(Name \<Rightarrow> string) \<Rightarrow> SecPublicInfoMemory \<Rightarrow> Name \<Rightarrow> SecPublicInfoMemory" where
  "setDefaultIdentityInternal toUri st identityName =
     (let identityUri = toUri identityName in
      if identityUri \<in> set (m_identityStore st) then st\<lparr>m_defaultIdentity := identityUri\<rparr>
      else st\<lparr>m_defaultIdentity := []\<rparr>)"

definition getDefaultKeyNameForIdentity :: "SecPublicInfoMemory \<Rightarrow> Name \<Rightarrow> Name" where
  "getDefaultKeyNameForIdentity st identityName = m_defaultKeyName st"

definition setDefaultKeyNameForIdentityInternal ::
  "SecPublicInfoMemory \<Rightarrow> Name \<Rightarrow> SecPublicInfoMemory" where
  "setDefaultKeyNameForIdentityInternal st keyName = st\<lparr>m_defaultKeyName := keyName\<rparr>"

definition getDefaultCertificateNameForKey :: "SecPublicInfoMemory \<Rightarrow> Name \<Rightarrow> Name" where
  "getDefaultCertificateNameForKey st keyName = m_defaultCert st"

definition setDefaultCertificateNameForKeyInternal ::
  "SecPublicInfoMemory \<Rightarrow> Name \<Rightarrow> SecPublicInfoMemory" where
  "setDefaultCertificateNameForKeyInternal st certificateName =
     st\<lparr>m_defaultCert := certificateName\<rparr>"


section \<open>The always-accept validator\<close>

text \<open>
  \<open>Data\<close> and \<open>Interest\<close> derive from \<open>enable_shared_from_this\<close>. \<open>checkPolicy\<close> receives
  the item by reference: the object may be owned by a \<open>shared_ptr\<close> or not.
  \<open>shared_from_this()\<close> returns the owning pointer, here the object it points to, and
  throws \<open>bad_weak_ptr\<close> when there is no owner.
\<close>

datatype bad_weak_ptr = bad_weak_ptr

record 'a enable_shared_from_this =
  object :: 'a
  owned :: bool

definition shared_from_this :: "'a enable_shared_from_this \<Rightarrow> bad_weak_ptr + 'a" where
  "shared_from_this x = (if owned x then Inr (object x) else Inl bad_weak_ptr)"

text \<open>
  \<open>checkPolicy\<close> receives the item, the step count, the two continuations and the
  vector \<open>nextSteps\<close>, which it may extend. A continuation acts on the caller's world
  \<open>'w\<close>; the function returns the exception thrown, if any, with the world and the
  vector it leaves behind. The argument of \<open>onValidated\<close> is evaluated before the call:
  when \<open>shared_from_this()\<close> throws, no continuation has run.
\<close>

definition checkPolicy_Data ::
  "'d enable_shared_from_this \<Rightarrow> int \<Rightarrow> ('d \<Rightarrow> 'w \<Rightarrow> 'w) \<Rightarrow> ('d \<Rightarrow> 'w \<Rightarrow> 'w)
     \<Rightarrow> 'w \<times> 'r list \<Rightarrow> (bad_weak_ptr + unit) \<times> 'w \<times> 'r list" where
  "checkPolicy_Data data nSteps onValidated onValidationFailed s =
     (case s of (w, nextSteps) \<Rightarrow>
        (case shared_from_this data of
           Inl e \<Rightarrow> (Inl e, w, nextSteps)
         | Inr p \<Rightarrow> (Inr (), onValidated p w, nextSteps)))"

definition checkPolicy_Interest ::
  "'i enable_shared_from_this \<Rightarrow> int \<Rightarrow> ('i \<Rightarrow> 'w \<Rightarrow> 'w) \<Rightarrow> ('i \<Rightarrow> 'w \<Rightarrow> 'w)
     \<Rightarrow> 'w \<times> 'r list \<Rightarrow> (bad_weak_ptr + unit) \<times> 'w \<times> 'r list" where
  "checkPolicy_Interest interest nSteps onValidated onValidationFailed s =
     (case s of (w, nextSteps) \<Rightarrow>
        (case shared_from_this interest of
           Inl e \<Rightarrow> (Inl e, w, nextSteps)
         | Inr p \<Rightarrow> (Inr (), onValidated p w, nextSteps)))"

text \<open>
  Continuations that only record their call in a log, to count what \<open>checkPolicy\<close>
  invokes.
\<close>

datatype 'a callback = Validated 'a | ValidationFailed 'a

definition log_validated :: "'a \<Rightarrow> 'a callback list \<Rightarrow> 'a callback list" where
  "log_validated x log = log @ [Validated x]"

definition log_failed :: "'a \<Rightarrow> 'a callback list \<Rightarrow> 'a callback list" where
  "log_failed x log = log @ [ValidationFailed x]"


section \<open>ASN.1 sequences as the certificate codec uses them\<close>

text \<open>
  Modelled from the spec: the sequence encoder and decoder (\<open>DERSequenceEncoder\<close>,
  \<open>BERSequenceDecoder\<close>, with \<open>DERLengthEncode\<close>, \<open>BERLengthDecode\<close> and
  \<open>BytePrecision\<close>) belong to the Crypto++ library and are missing from the sources.
  The spec describes "binary-length-delimited records" read "until the sub-record
  end-marker", with "malformed length markers" and "truncated input" as errors; the
  definitions below follow the library's definite and indefinite length forms.
  An lword has 64 bits: lengths are natural numbers, and the decoder's overflow check
  is written out.
\<close>

datatype FormatError = BERDecodeErr | CodecError string

fun BytePrecision :: "nat \<Rightarrow> nat" where
  "BytePrecision v = (if v = 0 then 0 else Suc (BytePrecision (v div 256)))"

declare BytePrecision.simps [simp del]

fun put_length_bytes :: "nat \<Rightarrow> nat \<Rightarrow> byte list" where
  "put_length_bytes 0 v = []"
| "put_length_bytes (Suc j) v = of_nat (v div 2 ^ (8 * j)) # put_length_bytes j v"

definition DERLengthEncode :: "nat \<Rightarrow> byte list" where
  "DERLengthEncode len =
     (if len \<le> 0x7f then [of_nat len]
      else or (of_nat (BytePrecision len)) 0x80 # put_length_bytes (BytePrecision len) len)"

definition SEQUENCE_CONSTRUCTED :: byte where
  "SEQUENCE_CONSTRUCTED = 0x30"

definition DERSequenceEncoder :: "byte list \<Rightarrow> byte list" where
  "DERSequenceEncoder body = SEQUENCE_CONSTRUCTED # DERLengthEncode (length body) @ body"

fun get_length_bytes :: "nat \<Rightarrow> nat \<Rightarrow> byte list \<Rightarrow> FormatError + nat \<times> byte list" where
  "get_length_bytes 0 len bs = Inr (len, bs)"
| "get_length_bytes (Suc k) len bs =
     (if len div 2 ^ 56 \<noteq> 0 then Inl BERDecodeErr
      else (case bs of
              [] \<Rightarrow> Inl BERDecodeErr
            | b # bs' \<Rightarrow> get_length_bytes k (len * 256 + unat b) bs'))"

text \<open>The result is the length, the flag \<open>definiteLength\<close> and the bytes left.\<close>

definition BERLengthDecode :: "byte list \<Rightarrow> FormatError + (nat \<times> bool) \<times> byte list" where
  "BERLengthDecode bs =
     (case bs of
        [] \<Rightarrow> Inl BERDecodeErr
      | b # bs' \<Rightarrow>
          if and b 0x80 = 0 then Inr ((unat b, True), bs')
          else (let lengthBytes = unat (and b 0x7f) in
                if lengthBytes = 0 then Inr ((0, False), bs')
                else (case get_length_bytes lengthBytes 0 bs' of
                        Inl e \<Rightarrow> Inl e
                      | Inr (len, bs'') \<Rightarrow> Inr ((len, True), bs''))))"

text \<open>
  A decoder reads from the queue under it: \<open>m_inQueue\<close> holds the bytes that queue can
  still deliver. With a definite length no read goes past \<open>m_length\<close> bytes.
\<close>

record BERGeneralDecoder =
  m_inQueue :: "byte list"
  m_definiteLength :: bool
  m_length :: nat

definition readable :: "BERGeneralDecoder \<Rightarrow> byte list" where
  "readable d = (if m_definiteLength d then take (m_length d) (m_inQueue d) else m_inQueue d)"

definition BERSequenceDecoder :: "byte list \<Rightarrow> FormatError + BERGeneralDecoder" where
  "BERSequenceDecoder bs =
     (case bs of
        [] \<Rightarrow> Inl BERDecodeErr
      | b # bs' \<Rightarrow>
          if b \<noteq> SEQUENCE_CONSTRUCTED then Inl BERDecodeErr
          else (case BERLengthDecode bs' of
                  Inl e \<Rightarrow> Inl e
                | Inr ((len, definite), bs'') \<Rightarrow>
                    Inr \<lparr>m_inQueue = bs'', m_definiteLength = definite, m_length = len\<rparr>))"

definition EndReached :: "BERGeneralDecoder \<Rightarrow> bool" where
  "EndReached d =
     (if m_definiteLength d then m_length d = 0
      else take 2 (m_inQueue d) = [0, 0])"

text \<open>\<open>MessageEnd\<close> returns the bytes the queue under the decoder still holds.\<close>

definition MessageEnd :: "BERGeneralDecoder \<Rightarrow> FormatError + byte list" where
  "MessageEnd d =
     (if m_definiteLength d then
        (if m_length d \<noteq> 0 then Inl BERDecodeErr else Inr (m_inQueue d))
      else if take 2 (m_inQueue d) = [0, 0] then Inr (drop 2 (m_inQueue d))
      else Inl BERDecodeErr)"

text \<open>
  \<open>consumed d rest\<close> is the decoder after a read through it that left \<open>rest\<close> of its
  readable bytes: the queue loses the bytes read, and a definite length is reduced by
  their number.
\<close>

definition consumed :: "BERGeneralDecoder \<Rightarrow> byte list \<Rightarrow> BERGeneralDecoder" where
  "consumed d rest =
     (let n = length (readable d) - length rest in
      d\<lparr>m_inQueue := drop n (m_inQueue d),
        m_length := (if m_definiteLength d then m_length d - n else m_length d)\<rparr>)"

text \<open>
  An element decoder takes the bytes it may read and returns its value with the bytes it
  left, or throws. \<open>through p d\<close> runs it on the decoder \<open>d\<close>.
\<close>

type_synonym 'a reader = "byte list \<Rightarrow> FormatError + 'a \<times> byte list"

definition through :: "'a reader \<Rightarrow> BERGeneralDecoder \<Rightarrow> FormatError + 'a \<times> BERGeneralDecoder" where
  "through p d =
     (case p (readable d) of
        Inl e \<Rightarrow> Inl e
      | Inr (x, rest) \<Rightarrow> Inr (x, consumed d rest))"

text \<open>
  The loop \<open>while (!seq.EndReached()) list.push_back(Element(seq))\<close>. It returns the
  list as the loop left it, also when an element throws. An element decoder that
  returns without reading a byte leaves the decoder as it was, and the loop runs
  forever: the result is \<open>None\<close>.
\<close>

function decode_elements ::
  "'a reader \<Rightarrow> BERGeneralDecoder \<Rightarrow> 'a list
     \<Rightarrow> ((FormatError + BERGeneralDecoder) \<times> 'a list) option" where
  "decode_elements p d acc =
     (if EndReached d then Some (Inr d, acc)
      else (case through p d of
              Inl e \<Rightarrow> Some (Inl e, acc)
            | Inr (x, d') \<Rightarrow>
                if length (m_inQueue d') < length (m_inQueue d)
                then decode_elements p d' (acc @ [x])
                else None))"
  by pat_completeness auto
termination
  by (relation "measure (\<lambda>(p, d, acc). length (m_inQueue d))") auto

declare decode_elements.simps [simp del]

text \<open>
  A decoder of definite length that has \<open>xs\<close> of its sequence left to read, with \<open>r\<close>
  behind the sequence in the queue.
\<close>

definition positioned :: "byte list \<Rightarrow> byte list \<Rightarrow> BERGeneralDecoder" where
  "positioned xs r = \<lparr>m_inQueue = xs @ r, m_definiteLength = True, m_length = length xs\<rparr>"


section \<open>Certificates\<close>

text \<open>
  A \<open>TimePoint\<close> is a count of clock ticks; \<open>time::system_clock::now()\<close> is the argument
  \<open>now\<close>.
\<close>

type_synonym TimePoint = int

text \<open>
  The content types of \<open>MetaInfo\<close> are declared outside the sources; \<open>encode\<close>
  names \<open>TYPE_KEY\<close> only.
\<close>

datatype ContentType = TYPE_DEFAULT | TYPE_LINK | TYPE_KEY

text \<open>
  A certificate is a \<open>Data\<close> packet, of which the codec reads and writes the content and
  its type, with the four decoded fields. The classes of a subject description, of the
  key and of an extension are declared outside the sources: they are the type
  parameters \<open>'s\<close>, \<open>'k\<close> and \<open>'e\<close>.
\<close>

record ('s, 'k, 'e) Certificate =
  content :: "byte list"
  contentType :: ContentType
  m_notBefore :: TimePoint
  m_notAfter :: TimePoint
  m_subjectDescriptionList :: "'s list"
  m_key :: "'k"
  m_extensionList :: "'e list"

definition isTooEarly :: "TimePoint \<Rightarrow> ('s, 'k, 'e) Certificate \<Rightarrow> bool" where
  "isTooEarly now c = (if now < m_notBefore c then True else False)"

definition isTooLate :: "TimePoint \<Rightarrow> ('s, 'k, 'e) Certificate \<Rightarrow> bool" where
  "isTooLate now c = (if now > m_notAfter c then True else False)"

text \<open>
  The codecs of the elements (\<open>DEREncodeGeneralTime\<close> and \<open>BERDecodeTime\<close>, the
  \<open>encode\<close> methods and decoding constructors of a subject description and of an
  extension, \<open>encode\<close> and \<open>decode\<close> of the key) are missing from the sources.
  \<open>Certificate::encode\<close> and \<open>Certificate::decode\<close> take them as a parameter. An
  encoder appends its bytes to the sequence it writes into; a decoder is a reader, which
  hands its value over only when it returns: \<open>BERDecodeTime\<close> and the \<open>decode\<close> of the key
  leave their target as it was when they throw.
\<close>

record ('s, 'k, 'e) element_codecs =
  DEREncodeGeneralTime :: "TimePoint \<Rightarrow> byte list"
  BERDecodeTime :: "TimePoint reader"
  subject_encode :: "'s \<Rightarrow> byte list"
  subject_decode :: "'s reader"
  key_encode :: "'k \<Rightarrow> byte list"
  key_decode :: "'k reader"
  extension_encode :: "'e \<Rightarrow> byte list"
  extension_decode :: "'e reader"

definition encode ::
  "('s, 'k, 'e) element_codecs \<Rightarrow> ('s, 'k, 'e) Certificate \<Rightarrow> ('s, 'k, 'e) Certificate" where
  "encode C c =
     (let validity = DERSequenceEncoder
            (DEREncodeGeneralTime C (m_notBefore c) @ DEREncodeGeneralTime C (m_notAfter c));
          name = DERSequenceEncoder
            (concat (map (subject_encode C) (m_subjectDescriptionList c)));
          key = key_encode C (m_key c);
          extensions =
            (if m_extensionList c \<noteq> []
             then DERSequenceEncoder (concat (map (extension_encode C) (m_extensionList c)))
             else []);
          idCert = DERSequenceEncoder (validity @ name @ key @ extensions)
      in c\<lparr>content := idCert, contentType := TYPE_KEY\<rparr>)"

text \<open>
  \<open>decode\<close> writes the fields of the object as it goes. Its result is \<open>None\<close> when it
  does not return; otherwise the exception thrown, if any, and the object as the call
  leaves it. The four blocks of the source are the four functions below; each returns
  the outer decoder \<open>idCert\<close> after the block.
\<close>

type_synonym ('s, 'k, 'e) decoding =
  "((FormatError + BERGeneralDecoder) \<times> ('s, 'k, 'e) Certificate) option"

definition decode_validity ::
  "('s, 'k, 'e) element_codecs \<Rightarrow> BERGeneralDecoder \<Rightarrow> ('s, 'k, 'e) Certificate
     \<Rightarrow> ('s, 'k, 'e) decoding" where
  "decode_validity C idCert c =
     (case BERSequenceDecoder (readable idCert) of
        Inl e \<Rightarrow> Some (Inl e, c)
      | Inr validity \<Rightarrow>
          (case through (BERDecodeTime C) validity of
             Inl e \<Rightarrow> Some (Inl e, c)
           | Inr (t0, validity1) \<Rightarrow>
               (let c1 = c\<lparr>m_notBefore := t0\<rparr> in
                case through (BERDecodeTime C) validity1 of
                  Inl e \<Rightarrow> Some (Inl e, c1)
                | Inr (t1, validity2) \<Rightarrow>
                    (let c2 = c1\<lparr>m_notAfter := t1\<rparr> in
                     case MessageEnd validity2 of
                       Inl e \<Rightarrow> Some (Inl e, c2)
                     | Inr rest \<Rightarrow> Some (Inr (consumed idCert rest), c2)))))"

definition decode_name ::
  "('s, 'k, 'e) element_codecs \<Rightarrow> BERGeneralDecoder \<Rightarrow> ('s, 'k, 'e) Certificate
     \<Rightarrow> ('s, 'k, 'e) decoding" where
  "decode_name C idCert c =
     (let c1 = c\<lparr>m_subjectDescriptionList := []\<rparr> in
      case BERSequenceDecoder (readable idCert) of
        Inl e \<Rightarrow> Some (Inl e, c1)
      | Inr name \<Rightarrow>
          (case decode_elements (subject_decode C) name [] of
             None \<Rightarrow> None
           | Some (Inl e, xs) \<Rightarrow> Some (Inl e, c1\<lparr>m_subjectDescriptionList := xs\<rparr>)
           | Some (Inr name1, xs) \<Rightarrow>
               (let c2 = c1\<lparr>m_subjectDescriptionList := xs\<rparr> in
                case MessageEnd name1 of
                  Inl e \<Rightarrow> Some (Inl e, c2)
                | Inr rest \<Rightarrow> Some (Inr (consumed idCert rest), c2))))"

definition decode_key ::
  "('s, 'k, 'e) element_codecs \<Rightarrow> BERGeneralDecoder \<Rightarrow> ('s, 'k, 'e) Certificate
     \<Rightarrow> ('s, 'k, 'e) decoding" where
  "decode_key C idCert c =
     (case through (key_decode C) idCert of
        Inl e \<Rightarrow> Some (Inl e, c)
      | Inr (k, idCert1) \<Rightarrow> Some (Inr idCert1, c\<lparr>m_key := k\<rparr>))"

definition decode_extensions ::
  "('s, 'k, 'e) element_codecs \<Rightarrow> BERGeneralDecoder \<Rightarrow> ('s, 'k, 'e) Certificate
     \<Rightarrow> ('s, 'k, 'e) decoding" where
  "decode_extensions C idCert c =
     (let c1 = c\<lparr>m_extensionList := []\<rparr> in
      if \<not> EndReached idCert then
        (case BERSequenceDecoder (readable idCert) of
           Inl e \<Rightarrow> Some (Inl e, c1)
         | Inr extensions \<Rightarrow>
             (case decode_elements (extension_decode C) extensions [] of
                None \<Rightarrow> None
              | Some (Inl e, xs) \<Rightarrow> Some (Inl e, c1\<lparr>m_extensionList := xs\<rparr>)
              | Some (Inr extensions1, xs) \<Rightarrow>
                  (let c2 = c1\<lparr>m_extensionList := xs\<rparr> in
                   case MessageEnd extensions1 of
                     Inl e \<Rightarrow> Some (Inl e, c2)
                   | Inr rest \<Rightarrow> Some (Inr (consumed idCert rest), c2))))
      else Some (Inr idCert, c1))"

text \<open>A block runs on what the block before it returned; an exception ends the call.\<close>

definition and_then ::
  "('s, 'k, 'e) decoding
     \<Rightarrow> (BERGeneralDecoder \<Rightarrow> ('s, 'k, 'e) Certificate \<Rightarrow> ('s, 'k, 'e) decoding)
     \<Rightarrow> ('s, 'k, 'e) decoding" where
  "and_then r f =
     (case r of
        None \<Rightarrow> None
      | Some (Inl e, c) \<Rightarrow> Some (Inl e, c)
      | Some (Inr idCert, c) \<Rightarrow> f idCert c)"

definition decode ::
  "('s, 'k, 'e) element_codecs \<Rightarrow> ('s, 'k, 'e) Certificate
     \<Rightarrow> ((FormatError + unit) \<times> ('s, 'k, 'e) Certificate) option" where
  "decode C c =
     (case BERSequenceDecoder (content c) of
        Inl e \<Rightarrow> Some (Inl e, c)
      | Inr idCert \<Rightarrow>
          (case and_then (and_then (and_then (decode_validity C idCert c)
                  (decode_name C)) (decode_key C)) (decode_extensions C) of
             None \<Rightarrow> None
           | Some (Inl e, c') \<Rightarrow> Some (Inl e, c')
           | Some (Inr idCert', c') \<Rightarrow>
               (case MessageEnd idCert' of
                  Inl e \<Rightarrow> Some (Inl e, c')
                | Inr rest \<Rightarrow> Some (Inr (), c'))))"

text \<open>
  A value is within the schema of an element codec when its encoding is not empty and
  the decoder reads the value back from it, whatever follows in the queue. A certificate
  is within the schema when its subject list is not empty, each of its fields is within
  the schema of its codec, and the encoding is shorter than \<open>2 ^ 64\<close> bytes (the range
  of an lword).
\<close>

definition self_delimiting :: "('a \<Rightarrow> byte list) \<Rightarrow> 'a reader \<Rightarrow> 'a \<Rightarrow> bool" where
  "self_delimiting enc dec x \<longleftrightarrow> enc x \<noteq> [] \<and> (\<forall>b. dec (enc x @ b) = Inr (x, b))"

definition within_schema ::
  "('s, 'k, 'e) element_codecs \<Rightarrow> ('s, 'k, 'e) Certificate \<Rightarrow> bool" where
  "within_schema C c \<longleftrightarrow>
     m_subjectDescriptionList c \<noteq> []
     \<and> self_delimiting (DEREncodeGeneralTime C) (BERDecodeTime C) (m_notBefore c)
     \<and> self_delimiting (DEREncodeGeneralTime C) (BERDecodeTime C) (m_notAfter c)
     \<and> (\<forall>s \<in> set (m_subjectDescriptionList c).
           self_delimiting (subject_encode C) (subject_decode C) s)
     \<and> self_delimiting (key_encode C) (key_decode C) (m_key c)
     \<and> (\<forall>e \<in> set (m_extensionList c).
           self_delimiting (extension_encode C) (extension_decode C) e)
     \<and> length (content (encode C c)) < 2 ^ 64"

text \<open>
  A small instance of the element codecs, for running the codec on concrete
  certificates: every element is a tag, a one-byte length below 128 and that many bytes;
  a time is one such byte, a subject description, a key and an extension are byte
  strings.
\<close>

definition tlv_encode :: "byte \<Rightarrow> byte list \<Rightarrow> byte list" where
  "tlv_encode tag v = tag # of_nat (length v) # v"

definition tlv_decode :: "byte \<Rightarrow> (byte list) reader" where
  "tlv_decode tag bs =
     (case bs of
        t # l # bs' \<Rightarrow>
          if t = tag \<and> unat l < 128 \<and> unat l \<le> length bs'
          then Inr (take (unat l) bs', drop (unat l) bs')
          else Inl BERDecodeErr
      | _ \<Rightarrow> Inl BERDecodeErr)"

definition tlv_time_decode :: "TimePoint reader" where
  "tlv_time_decode bs =
     (case tlv_decode 0x18 bs of
        Inl e \<Rightarrow> Inl e
      | Inr (v, rest) \<Rightarrow>
          (case v of
             [b] \<Rightarrow> Inr (uint b, rest)
           | _ \<Rightarrow> Inl (CodecError ''time'')))"

definition tlv_codecs :: "(byte list, byte list, byte list) element_codecs" where
  "tlv_codecs =
     \<lparr>DEREncodeGeneralTime = (\<lambda>t. tlv_encode 0x18 [of_int t]),
      BERDecodeTime = tlv_time_decode,
      subject_encode = tlv_encode 0x30,
      subject_decode = tlv_decode 0x30,
      key_encode = tlv_encode 0x30,
      key_decode = tlv_decode 0x30,
      extension_encode = tlv_encode 0x30,
      extension_decode = tlv_decode 0x30\<rparr>"


text \<open>
  Two certificates over these codecs: one with every field set, and one whose fields
  hold other values, into which records are decoded.
\<close>

definition cert_example :: "(byte list, byte list, byte list) Certificate" where
  "cert_example =
     \<lparr>content = [], contentType = TYPE_DEFAULT, m_notBefore = 5, m_notAfter = 9,
      m_subjectDescriptionList = [[1, 2], [3]], m_key = [7, 7, 7],
      m_extensionList = [[4]]\<rparr>"

definition cert_blank :: "(byte list, byte list, byte list) Certificate" where
  "cert_blank =
     \<lparr>content = [], contentType = TYPE_KEY, m_notBefore = 0, m_notAfter = 0,
      m_subjectDescriptionList = [[9]], m_key = [], m_extensionList = [[8]]\<rparr>"


section \<open>Properties of the store\<close>

lemma doesIdentityExist_addIdentity:
  "doesIdentityExist toUri (addIdentity toUri st n) n"
  by (simp add: doesIdentityExist_def addIdentity_def Let_def)

lemma addIdentity_keeps_identity:
  "doesIdentityExist toUri st m \<Longrightarrow> doesIdentityExist toUri (addIdentity toUri st n) m"
  by (simp add: doesIdentityExist_def addIdentity_def Let_def)

lemma m_identityStore_addPublicKey:
  "m_identityStore (addPublicKey toUri st k t pk) =
     m_identityStore (addIdentity toUri st (getPrefix k (- 1)))"
  by (simp add: addPublicKey_def Let_def)

lemma m_keyStore_addPublicKey:
  "m_keyStore (addPublicKey toUri st k t pk) (toUri k) = Some \<lparr>getKeyType = t, getKey = pk\<rparr>"
  by (simp add: addPublicKey_def Let_def)

lemma m_keyStore_addCertificate:
  "m_keyStore (addCertificate toUri st cert) (toUri (getPublicKeyName cert)) =
     Some \<lparr>getKeyType = KEY_TYPE_RSA, getKey = getPublicKeyInfo cert\<rparr>"
  by (simp add: addCertificate_def Let_def m_keyStore_addPublicKey)

lemma m_certificateStore_addCertificate:
  "m_certificateStore (addCertificate toUri st cert) (toUri (getName cert)) = Some cert"
  by (simp add: addCertificate_def Let_def)

lemma doesIdentityExist_addCertificate:
  "doesIdentityExist toUri (addCertificate toUri st cert)
     (getPrefix (getPublicKeyName cert) (- 1))"
proof -
  have "doesIdentityExist toUri
          (addPublicKey toUri (addIdentity toUri st (getPrefix (getPublicKeyName cert) (- 1)))
             (getPublicKeyName cert) KEY_TYPE_RSA (getPublicKeyInfo cert))
          (getPrefix (getPublicKeyName cert) (- 1))"
    unfolding doesIdentityExist_def Let_def m_identityStore_addPublicKey
    using doesIdentityExist_addIdentity [of toUri]
    by (simp add: doesIdentityExist_def)
  then show ?thesis
    by (simp add: addCertificate_def Let_def doesIdentityExist_def)
qed

lemma addCertificate_scenario_any_key:
  "doesCertificateExist toUri
     (addCertificate toUri (addPublicKey toUri empty_store [''alice'', ''KEY1''] keyType K)
        \<lparr>getName = [''alice'', ''KEY1'', ''ID-CERT'', ''1''],
         getPublicKeyName = [''alice'', ''KEY1''], getPublicKeyInfo = K'\<rparr>)
     [''alice'', ''KEY1'', ''ID-CERT'', ''1'']
   \<and> fst (getPublicKey toUri
     (addCertificate toUri (addPublicKey toUri empty_store [''alice'', ''KEY1''] keyType K)
        \<lparr>getName = [''alice'', ''KEY1'', ''ID-CERT'', ''1''],
         getPublicKeyName = [''alice'', ''KEY1''], getPublicKeyInfo = K'\<rparr>)
     [''alice'', ''KEY1'']) = Inr K'
   \<and> doesIdentityExist toUri
     (addCertificate toUri (addPublicKey toUri empty_store [''alice'', ''KEY1''] keyType K)
        \<lparr>getName = [''alice'', ''KEY1'', ''ID-CERT'', ''1''],
         getPublicKeyName = [''alice'', ''KEY1''], getPublicKeyInfo = K'\<rparr>)
     [''alice'']"
proof -
  define cert where "cert =
    \<lparr>getName = [''alice'', ''KEY1'', ''ID-CERT'', ''1''],
     getPublicKeyName = [''alice'', ''KEY1''], getPublicKeyInfo = K'\<rparr>"
  define st where "st = addPublicKey toUri empty_store [''alice'', ''KEY1''] keyType K"
  have names: "getName cert = [''alice'', ''KEY1'', ''ID-CERT'', ''1'']"
    "getPublicKeyName cert = [''alice'', ''KEY1'']" "getPublicKeyInfo cert = K'"
    by (simp_all add: cert_def)
  have prefix: "getPrefix [''alice'', ''KEY1''] (- 1) = [''alice'']"
    by (simp add: getPrefix_def)
  have a: "doesCertificateExist toUri (addCertificate toUri st cert)
             [''alice'', ''KEY1'', ''ID-CERT'', ''1'']"
    using m_certificateStore_addCertificate [of toUri st cert]
    by (simp add: doesCertificateExist_def names)
  have b: "fst (getPublicKey toUri (addCertificate toUri st cert) [''alice'', ''KEY1'']) = Inr K'"
    using m_keyStore_addCertificate [of toUri st cert]
    by (simp add: getPublicKey_def names)
  have c: "doesIdentityExist toUri (addCertificate toUri st cert) [''alice'']"
    using doesIdentityExist_addCertificate [of toUri st cert]
    by (simp add: names prefix)
  from a b c show ?thesis
    unfolding cert_def st_def by simp
qed

text \<open>
  C4. From the empty store, after \<open>addPublicKey\<close> of \<open>/alice/KEY1\<close> with key bytes \<open>K\<close> and
  \<open>addCertificate\<close> of the certificate named \<open>/alice/KEY1/ID-CERT/1\<close> whose key name is
  \<open>/alice/KEY1\<close> and which carries the key \<open>K\<close> it certifies: the certificate exists,
  \<open>getPublicKey\<close> of \<open>/alice/KEY1\<close> returns \<open>K\<close>, and the identity \<open>/alice\<close> exists though
  \<open>addIdentity\<close> was never called by the caller. This holds for every key type given to
  \<open>addPublicKey\<close> and for every \<open>toUri\<close>.
\<close>

theorem addCertificate_scenario:
  "doesCertificateExist toUri
     (addCertificate toUri (addPublicKey toUri empty_store [''alice'', ''KEY1''] keyType K)
        \<lparr>getName = [''alice'', ''KEY1'', ''ID-CERT'', ''1''],
         getPublicKeyName = [''alice'', ''KEY1''], getPublicKeyInfo = K\<rparr>)
     [''alice'', ''KEY1'', ''ID-CERT'', ''1'']
   \<and> fst (getPublicKey toUri
     (addCertificate toUri (addPublicKey toUri empty_store [''alice'', ''KEY1''] keyType K)
        \<lparr>getName = [''alice'', ''KEY1'', ''ID-CERT'', ''1''],
         getPublicKeyName = [''alice'', ''KEY1''], getPublicKeyInfo = K\<rparr>)
     [''alice'', ''KEY1'']) = Inr K
   \<and> doesIdentityExist toUri
     (addCertificate toUri (addPublicKey toUri empty_store [''alice'', ''KEY1''] keyType K)
        \<lparr>getName = [''alice'', ''KEY1'', ''ID-CERT'', ''1''],
         getPublicKeyName = [''alice'', ''KEY1''], getPublicKeyInfo = K\<rparr>)
     [''alice'']"
  by (rule addCertificate_scenario_any_key)

text \<open>
  C5. For every store and every name \<open>n\<close> that the URI constructor reads back from its
  own URI: after \<open>setDefaultIdentityInternal\<close> of \<open>n\<close>, \<open>getDefaultIdentity\<close> returns \<open>n\<close>
  if the identity existed when the default was set, and the empty name otherwise.
\<close>

theorem setDefaultIdentity_then_get:
  assumes "fromUri (toUri n) = n" and "fromUri [] = []"
  shows "getDefaultIdentity fromUri (setDefaultIdentityInternal toUri st n) =
           (if doesIdentityExist toUri st n then n else [])"
  using assms
  by (simp add: getDefaultIdentity_def setDefaultIdentityInternal_def doesIdentityExist_def
      Let_def)

lemma plain_fromUri_alice: "plain_fromUri (plain_toUri [''alice'']) = [''alice'']"
  by (simp add: plain_fromUri_def plain_toUri_def)

lemma plain_fromUri_bob: "plain_fromUri (plain_toUri [''bob'']) = [''bob'']"
  by (simp add: plain_fromUri_def plain_toUri_def)

lemma plain_fromUri_empty: "plain_fromUri [] = []"
  by (simp add: plain_fromUri_def)

theorem setDefaultIdentity_then_get_witness:
  "getDefaultIdentity plain_fromUri
     (setDefaultIdentityInternal plain_toUri (addIdentity plain_toUri empty_store [''alice''])
        [''alice'']) = [''alice'']
   \<and> getDefaultIdentity plain_fromUri
     (setDefaultIdentityInternal plain_toUri (addIdentity plain_toUri empty_store [''alice''])
        [''bob'']) = []"
proof -
  have "doesIdentityExist plain_toUri (addIdentity plain_toUri empty_store [''alice''])
          [''alice'']"
    by (rule doesIdentityExist_addIdentity)
  moreover have "\<not> doesIdentityExist plain_toUri
          (addIdentity plain_toUri empty_store [''alice'']) [''bob'']"
    by (simp add: doesIdentityExist_def addIdentity_def empty_store_def plain_toUri_def)
  ultimately show ?thesis
    using setDefaultIdentity_then_get [of plain_fromUri plain_toUri "[''alice'']"
        "addIdentity plain_toUri empty_store [''alice'']",
        OF plain_fromUri_alice plain_fromUri_empty]
      setDefaultIdentity_then_get [of plain_fromUri plain_toUri "[''bob'']"
        "addIdentity plain_toUri empty_store [''alice'']",
        OF plain_fromUri_bob plain_fromUri_empty]
    by simp
qed

text \<open>
  C6 fails on the code. On the empty store, which holds no key and no certificate,
  \<open>setDefaultKeyNameForIdentityInternal\<close> and \<open>setDefaultCertificateNameForKeyInternal\<close>
  store the name they are given, and the accessors return it, while
  \<open>setDefaultIdentityInternal\<close> clears the default for an identity that does not exist.
\<close>

theorem default_key_and_certificate_unchecked:
  "\<not> doesPublicKeyExist plain_toUri empty_store [''bob'', ''KEY9'']
   \<and> getDefaultKeyNameForIdentity
       (setDefaultKeyNameForIdentityInternal empty_store [''bob'', ''KEY9'']) [''bob'']
       = [''bob'', ''KEY9'']
   \<and> \<not> doesCertificateExist plain_toUri empty_store [''bob'', ''KEY9'', ''ID-CERT'', ''1'']
   \<and> getDefaultCertificateNameForKey
       (setDefaultCertificateNameForKeyInternal empty_store
          [''bob'', ''KEY9'', ''ID-CERT'', ''1'']) [''bob'', ''KEY9'']
       = [''bob'', ''KEY9'', ''ID-CERT'', ''1'']
   \<and> m_defaultIdentity (setDefaultIdentityInternal plain_toUri empty_store [''bob'']) = []"
  by (simp add: doesPublicKeyExist_def doesCertificateExist_def empty_store_def
      getDefaultKeyNameForIdentity_def setDefaultKeyNameForIdentityInternal_def
      getDefaultCertificateNameForKey_def setDefaultCertificateNameForKeyInternal_def
      setDefaultIdentityInternal_def Let_def)

text \<open>
  C9. \<open>getPublicKey\<close> returns the key stored for the name when \<open>doesPublicKeyExist\<close>
  holds and throws otherwise, and it throws only then; \<open>getCertificate\<close> does the same with
  \<open>doesCertificateExist\<close>; both leave the store as it was, hit or miss.
\<close>

theorem lookups_by_existence:
  "getPublicKey toUri st k =
     (if doesPublicKeyExist toUri st k
      then (Inr (getKey (the (m_keyStore st (toUri k)))), st)
      else (Inl (Error (''SecPublicInfoMemory::getPublicKey  '' @ toUri k)), st))
   \<and> getCertificate toUri st c =
     (if doesCertificateExist toUri st c
      then (Inr (the (m_certificateStore st (toUri c))), st)
      else (Inl (Error (''SecPublicInfoMemory::getCertificate  '' @ toUri c)), st))
   \<and> (isl (fst (getPublicKey toUri st k)) \<longleftrightarrow> \<not> doesPublicKeyExist toUri st k)
   \<and> (isl (fst (getCertificate toUri st c)) \<longleftrightarrow> \<not> doesCertificateExist toUri st c)
   \<and> snd (getPublicKey toUri st k) = st
   \<and> snd (getCertificate toUri st c) = st"
  by (auto simp: getPublicKey_def getCertificate_def doesPublicKeyExist_def
      doesCertificateExist_def split: option.splits)

text \<open>
  C10. The accessors of the default key of an identity and of the default certificate
  of a key do not depend on the name they are given: whatever was set last is returned
  for every name.
\<close>

theorem default_accessors_ignore_name:
  "getDefaultKeyNameForIdentity st a = getDefaultKeyNameForIdentity st b
   \<and> getDefaultCertificateNameForKey st a = getDefaultCertificateNameForKey st b
   \<and> getDefaultKeyNameForIdentity (setDefaultKeyNameForIdentityInternal st k) a = k
   \<and> getDefaultCertificateNameForKey (setDefaultCertificateNameForKeyInternal st c) a = c"
  by (simp add: getDefaultKeyNameForIdentity_def getDefaultCertificateNameForKey_def
      setDefaultKeyNameForIdentityInternal_def setDefaultCertificateNameForKeyInternal_def)


section \<open>Properties of the always-accept validator\<close>

text \<open>
  C7, as amended. For every data item and every interest item owned by a \<open>shared_ptr\<close>,
  \<open>checkPolicy\<close> calls the success continuation once with that item and nothing else:
  with continuations that log their calls, the log grows by one \<open>Validated\<close> entry for
  the item and by no \<open>ValidationFailed\<close> entry, and \<open>nextSteps\<close> is returned as it was
  given. For an item that no \<open>shared_ptr\<close> owns, \<open>checkPolicy\<close> throws \<open>bad_weak_ptr\<close>, calls
  no continuation and leaves \<open>nextSteps\<close> as it was given. For any continuations
  whatever, the world left behind is the one the success continuation makes of the world
  before, applied once to the item, or the world before.
\<close>

theorem checkPolicy_accepts_once:
  "checkPolicy_Data d n log_validated log_failed (log, nextSteps)
     = (if owned d then (Inr (), log @ [Validated (object d)], nextSteps)
        else (Inl bad_weak_ptr, log, nextSteps))
   \<and> checkPolicy_Interest i n log_validated log_failed (log', nextSteps')
     = (if owned i then (Inr (), log' @ [Validated (object i)], nextSteps')
        else (Inl bad_weak_ptr, log', nextSteps'))
   \<and> checkPolicy_Data d n onValidated onValidationFailed (w, nextSteps)
     = (if owned d then (Inr (), onValidated (object d) w, nextSteps)
        else (Inl bad_weak_ptr, w, nextSteps))
   \<and> checkPolicy_Interest i n onValidated' onValidationFailed' (w', nextSteps')
     = (if owned i then (Inr (), onValidated' (object i) w', nextSteps')
        else (Inl bad_weak_ptr, w', nextSteps'))"
  by (simp add: checkPolicy_Data_def checkPolicy_Interest_def shared_from_this_def
      log_validated_def)

text \<open>
  The claim C7 as stated fails on an item that no \<open>shared_ptr\<close> owns: \<open>checkPolicy\<close>
  throws and the log of continuation calls stays empty, for a data item and for an
  interest item.
\<close>

theorem checkPolicy_unowned_counterexample:
  "checkPolicy_Data \<lparr>object = ''/alice/data'', owned = False\<rparr> 5 log_validated log_failed
     ([], ([] :: unit list))
     = (Inl bad_weak_ptr, [], [])
   \<and> checkPolicy_Interest \<lparr>object = ''/alice/interest'', owned = False\<rparr> 5 log_validated
       log_failed ([], ([] :: unit list))
     = (Inl bad_weak_ptr, [], [])"
  by (simp add: checkPolicy_Data_def checkPolicy_Interest_def shared_from_this_def)


section \<open>Properties of the validity period\<close>

text \<open>
  C8. For a certificate with \<open>notBefore = t0\<close> and \<open>notAfter = t1\<close>, \<open>t0 < t1\<close>:
  \<open>isTooEarly\<close> holds exactly at the instants before \<open>t0\<close>, \<open>isTooLate\<close> exactly at the
  instants after \<open>t1\<close>, and neither holds exactly at the instants from \<open>t0\<close> to \<open>t1\<close>,
  both included.
\<close>

theorem validity_boundary:
  assumes "m_notBefore c = t0" and "m_notAfter c = t1" and "t0 < t1"
  shows "(isTooEarly now c \<longleftrightarrow> now < t0)
       \<and> (isTooLate now c \<longleftrightarrow> now > t1)
       \<and> (\<not> isTooEarly now c \<and> \<not> isTooLate now c \<longleftrightarrow> t0 \<le> now \<and> now \<le> t1)"
  using assms by (auto simp: isTooEarly_def isTooLate_def)

theorem validity_boundary_witness:
  "\<not> isTooEarly 10 \<lparr>content = [], contentType = TYPE_KEY, m_notBefore = 10, m_notAfter = 20,
       m_subjectDescriptionList = [[1::byte]], m_key = [2::byte], m_extensionList = ([]::byte list list)\<rparr>
   \<and> isTooEarly 9 \<lparr>content = [], contentType = TYPE_KEY, m_notBefore = 10, m_notAfter = 20,
       m_subjectDescriptionList = [[1::byte]], m_key = [2::byte], m_extensionList = ([]::byte list list)\<rparr>
   \<and> \<not> isTooLate 20 \<lparr>content = [], contentType = TYPE_KEY, m_notBefore = 10, m_notAfter = 20,
       m_subjectDescriptionList = [[1::byte]], m_key = [2::byte], m_extensionList = ([]::byte list list)\<rparr>
   \<and> isTooLate 21 \<lparr>content = [], contentType = TYPE_KEY, m_notBefore = 10, m_notAfter = 20,
       m_subjectDescriptionList = [[1::byte]], m_key = [2::byte], m_extensionList = ([]::byte list list)\<rparr>"
proof -
  let ?c = "\<lparr>content = [], contentType = TYPE_KEY, m_notBefore = 10, m_notAfter = 20,
       m_subjectDescriptionList = [[1::byte]], m_key = [2::byte],
       m_extensionList = ([]::byte list list)\<rparr>"
  have h: "m_notBefore ?c = 10" "m_notAfter ?c = 20" "(10::int) < 20"
    by simp_all
  show ?thesis
    using validity_boundary [OF h, of 10] validity_boundary [OF h, of 9]
      validity_boundary [OF h, of 20] validity_boundary [OF h, of 21]
    by simp
qed


section \<open>Properties of the certificate codec\<close>

subsection \<open>Lengths and sequences\<close>

lemma BytePrecision_0: "BytePrecision 0 = 0"
  by (subst BytePrecision.simps) simp

lemma BytePrecision_bound: "v < 256 ^ BytePrecision v"
proof (induction v rule: BytePrecision.induct)
  case (1 v)
  show ?case
  proof (cases "v = 0")
    case True
    then show ?thesis by (simp add: BytePrecision_0)
  next
    case False
    with 1 have "v div 256 < 256 ^ BytePrecision (v div 256)" by simp
    then have "v < 256 * 256 ^ BytePrecision (v div 256)"
      by (simp add: div_less_iff_less_mult)
    with False show ?thesis by (subst BytePrecision.simps) (simp add: mult.commute)
  qed
qed

lemma BytePrecision_le: "v < 256 ^ k \<Longrightarrow> BytePrecision v \<le> k"
proof (induction k arbitrary: v)
  case 0
  then show ?case by (simp add: BytePrecision_0)
next
  case (Suc k)
  show ?case
  proof (cases "v = 0")
    case True
    then show ?thesis by (simp add: BytePrecision_0)
  next
    case False
    from Suc.prems have "v div 256 < 256 ^ k"
      by (simp add: div_less_iff_less_mult)
    then have "BytePrecision (v div 256) \<le> k" by (rule Suc.IH)
    with False show ?thesis by (subst BytePrecision.simps) simp
  qed
qed

lemma BytePrecision_pos: "0 < v \<Longrightarrow> 0 < BytePrecision v"
  by (subst BytePrecision.simps) simp

lemma get_put_length_bytes:
  "acc * 256 ^ j + v mod 256 ^ j < 2 ^ 64 \<Longrightarrow>
   get_length_bytes j acc (put_length_bytes j v @ rest) = Inr (acc * 256 ^ j + v mod 256 ^ j, rest)"
proof (induction j arbitrary: acc)
  case 0
  then show ?case by simp
next
  case (Suc j)
  have small: "acc div 2 ^ 56 = 0"
  proof -
    have "acc * 256 \<le> acc * 256 ^ Suc j" by simp
    also have "\<dots> < 2 ^ 64" using Suc.prems by simp
    finally have "acc < 2 ^ 56" by simp
    then show ?thesis by simp
  qed
  have byte: "unat (of_nat (v div 2 ^ (8 * j)) :: byte) = v div 256 ^ j mod 256"
    by (simp add: unat_of_nat power_mult)
  have split: "v mod 256 ^ Suc j = 256 ^ j * (v div 256 ^ j mod 256) + v mod 256 ^ j"
    using mod_mult2_eq [of v "256 ^ j" 256] by (simp add: mult.commute)
  have eq: "(acc * 256 + v div 256 ^ j mod 256) * 256 ^ j + v mod 256 ^ j
            = acc * 256 ^ Suc j + v mod 256 ^ Suc j"
    unfolding split by (simp add: algebra_simps)
  have "get_length_bytes j (acc * 256 + v div 256 ^ j mod 256) (put_length_bytes j v @ rest)
        = Inr ((acc * 256 + v div 256 ^ j mod 256) * 256 ^ j + v mod 256 ^ j, rest)"
    by (rule Suc.IH) (use Suc.prems eq in simp)
  then show ?case
    using small byte eq by simp
qed

lemma short_form_unat: "n \<le> 127 \<Longrightarrow> unat (of_nat n :: byte) = n"
  by (simp add: unat_of_nat)

lemma short_form_and: "n \<le> 127 \<Longrightarrow> and (of_nat n :: byte) 0x80 = 0"
proof -
  assume a: "n \<le> 127"
  have "\<not> bit n 7" using a by (simp add: bit_iff_odd)
  then have "\<not> bit (of_nat n :: byte) 7" by (simp add: bit_of_nat_iff)
  then have "and (of_nat n :: byte) (2 ^ 7) = 0"
    unfolding and_exp_eq_0_iff_not_bit .
  then show ?thesis by simp
qed

lemma long_form_header:
  "0 < k \<Longrightarrow> k \<le> 8 \<Longrightarrow>
   and (or (of_nat k :: byte) 0x80) 0x80 \<noteq> 0 \<and> unat (and (or (of_nat k :: byte) 0x80) 0x7f) = k"
proof -
  assume "0 < k" "k \<le> 8"
  then have "k \<in> {1,2,3,4,5,6,7,8}" by auto
  then show ?thesis by (elim insertE) simp_all
qed

lemma BERLengthDecode_DERLengthEncode:
  assumes "n < 2 ^ 64"
  shows "BERLengthDecode (DERLengthEncode n @ rest) = Inr ((n, True), rest)"
proof (cases "n \<le> 127")
  case True
  then show ?thesis
    by (simp add: BERLengthDecode_def DERLengthEncode_def short_form_unat short_form_and)
next
  case False
  define k where "k = BytePrecision n"
  have "n < 256 ^ 8" using assms by simp
  then have k8: "k \<le> 8" unfolding k_def by (rule BytePrecision_le)
  have k0: "0 < k" unfolding k_def using False by (intro BytePrecision_pos) simp
  have nk: "n mod 256 ^ k = n" unfolding k_def using BytePrecision_bound [of n] by simp
  have "get_length_bytes k 0 (put_length_bytes k n @ rest) = Inr (0 * 256 ^ k + n mod 256 ^ k, rest)"
    by (rule get_put_length_bytes) (use nk assms in simp)
  then have g: "get_length_bytes k 0 (put_length_bytes k n @ rest) = Inr (n, rest)"
    using nk by simp
  from False have "DERLengthEncode n = or (of_nat k) 0x80 # put_length_bytes k n"
    by (simp add: DERLengthEncode_def k_def)
  then show ?thesis
    using long_form_header [OF k0 k8] g k0
    by (simp add: BERLengthDecode_def Let_def)
qed

lemma BERSequenceDecoder_DERSequenceEncoder:
  assumes "length body < 2 ^ 64"
  shows "BERSequenceDecoder (DERSequenceEncoder body @ r) = Inr (positioned body r)"
  using BERLengthDecode_DERLengthEncode [OF assms, of "body @ r"]
  by (simp add: BERSequenceDecoder_def DERSequenceEncoder_def positioned_def)

lemma readable_positioned: "readable (positioned xs r) = xs"
  by (simp add: readable_def positioned_def)

lemma consumed_positioned: "consumed (positioned (a @ b) r) b = positioned b r"
  by (simp add: consumed_def readable_def positioned_def)

lemma EndReached_positioned: "EndReached (positioned xs r) \<longleftrightarrow> xs = []"
  by (simp add: EndReached_def positioned_def)

lemma MessageEnd_positioned: "MessageEnd (positioned [] r) = Inr r"
  by (simp add: MessageEnd_def positioned_def)

lemma through_positioned:
  "p (a @ b) = Inr (x, b) \<Longrightarrow> through p (positioned (a @ b) r) = Inr (x, positioned b r)"
  by (simp add: through_def readable_positioned consumed_positioned)

lemma decode_elements_positioned:
  assumes "\<And>x b. x \<in> set xs \<Longrightarrow> enc x \<noteq> [] \<and> p (enc x @ b) = Inr (x, b)"
  shows "decode_elements p (positioned (concat (map enc xs)) r) acc
           = Some (Inr (positioned [] r), acc @ xs)"
  using assms
proof (induction xs arbitrary: acc)
  case Nil
  show ?case by (subst decode_elements.simps) (simp add: EndReached_positioned)
next
  case (Cons x xs)
  have x: "enc x \<noteq> []" "p (enc x @ concat (map enc xs)) = Inr (x, concat (map enc xs))"
    using Cons.prems [of x] by simp_all
  have t: "through p (positioned (enc x @ concat (map enc xs)) r)
             = Inr (x, positioned (concat (map enc xs)) r)"
    using x(2) by (rule through_positioned)
  have ih: "decode_elements p (positioned (concat (map enc xs)) r) (acc @ [x])
             = Some (Inr (positioned [] r), (acc @ [x]) @ xs)"
    by (rule Cons.IH) (use Cons.prems in simp)
  have l: "length (m_inQueue (positioned (concat (map enc xs)) r))
             < length (m_inQueue (positioned (enc x @ concat (map enc xs)) r))"
    using x(1) by (simp add: positioned_def)
  have e: "\<not> EndReached (positioned (enc x @ concat (map enc xs)) r)"
    using x(1) by (simp add: EndReached_positioned)
  show ?case
    apply (subst decode_elements.simps)
    using t ih l e by simp
qed


subsection \<open>Decoding an encoded certificate\<close>

lemma through_positioned_last:
  "p a = Inr (x, []) \<Longrightarrow> through p (positioned a r) = Inr (x, positioned [] r)"
  using through_positioned [of p a "[]" x r] by simp

lemma decode_validity_encoded:
  assumes t0: "\<And>b. BERDecodeTime C (DEREncodeGeneralTime C t0 @ b) = Inr (t0, b)"
    and t1: "\<And>b. BERDecodeTime C (DEREncodeGeneralTime C t1 @ b) = Inr (t1, b)"
    and len: "length (DEREncodeGeneralTime C t0 @ DEREncodeGeneralTime C t1) < 2 ^ 64"
  shows "decode_validity C
           (positioned (DERSequenceEncoder
              (DEREncodeGeneralTime C t0 @ DEREncodeGeneralTime C t1) @ tail) r) c
         = Some (Inr (positioned tail r), c\<lparr>m_notBefore := t0, m_notAfter := t1\<rparr>)"
proof -
  let ?e0 = "DEREncodeGeneralTime C t0" and ?e1 = "DEREncodeGeneralTime C t1"
  have a: "BERSequenceDecoder (DERSequenceEncoder (?e0 @ ?e1) @ tail)
             = Inr (positioned (?e0 @ ?e1) tail)"
    using len by (rule BERSequenceDecoder_DERSequenceEncoder)
  have b: "through (BERDecodeTime C) (positioned (?e0 @ ?e1) tail)
             = Inr (t0, positioned ?e1 tail)"
    by (rule through_positioned) (rule t0)
  have c: "through (BERDecodeTime C) (positioned ?e1 tail) = Inr (t1, positioned [] tail)"
    by (rule through_positioned_last) (use t1 [of "[]"] in simp)
  show ?thesis
    by (simp add: decode_validity_def readable_positioned a b c MessageEnd_positioned
        consumed_positioned Let_def)
qed

lemma decode_name_encoded:
  assumes el: "\<And>x b. x \<in> set ss \<Longrightarrow>
        subject_encode C x \<noteq> [] \<and> subject_decode C (subject_encode C x @ b) = Inr (x, b)"
    and len: "length (concat (map (subject_encode C) ss)) < 2 ^ 64"
  shows "decode_name C
           (positioned (DERSequenceEncoder (concat (map (subject_encode C) ss)) @ tail) r) c
         = Some (Inr (positioned tail r), c\<lparr>m_subjectDescriptionList := ss\<rparr>)"
proof -
  let ?body = "concat (map (subject_encode C) ss)"
  have a: "BERSequenceDecoder (DERSequenceEncoder ?body @ tail) = Inr (positioned ?body tail)"
    using len by (rule BERSequenceDecoder_DERSequenceEncoder)
  have b: "decode_elements (subject_decode C) (positioned ?body tail) []
             = Some (Inr (positioned [] tail), [] @ ss)"
    by (rule decode_elements_positioned) (rule el)
  show ?thesis
    using b
    by (simp add: decode_name_def readable_positioned a MessageEnd_positioned
        consumed_positioned Let_def)
qed

lemma decode_key_encoded:
  assumes "\<And>b. key_decode C (key_encode C k @ b) = Inr (k, b)"
  shows "decode_key C (positioned (key_encode C k @ tail) r) c
         = Some (Inr (positioned tail r), c\<lparr>m_key := k\<rparr>)"
  using through_positioned [of "key_decode C" "key_encode C k" tail k r] assms
  by (simp add: decode_key_def)

lemma DERSequenceEncoder_not_empty: "DERSequenceEncoder body \<noteq> []"
  by (simp add: DERSequenceEncoder_def)

lemma decode_extensions_encoded:
  assumes el: "\<And>x b. x \<in> set es \<Longrightarrow>
        extension_encode C x \<noteq> [] \<and> extension_decode C (extension_encode C x @ b) = Inr (x, b)"
    and len: "length (concat (map (extension_encode C) es)) < 2 ^ 64"
  shows "decode_extensions C
           (positioned (if es \<noteq> []
              then DERSequenceEncoder (concat (map (extension_encode C) es)) else []) r) c
         = Some (Inr (positioned [] r), c\<lparr>m_extensionList := es\<rparr>)"
proof (cases "es = []")
  case True
  then show ?thesis
    by (simp add: decode_extensions_def EndReached_positioned)
next
  case False
  let ?body = "concat (map (extension_encode C) es)"
  have a: "BERSequenceDecoder (DERSequenceEncoder ?body @ []) = Inr (positioned ?body [])"
    using len by (rule BERSequenceDecoder_DERSequenceEncoder)
  have b: "decode_elements (extension_decode C) (positioned ?body []) []
             = Some (Inr (positioned [] []), [] @ es)"
    by (rule decode_elements_positioned) (rule el)
  have c: "consumed (positioned (DERSequenceEncoder ?body) r) [] = positioned [] r"
    using consumed_positioned [of "DERSequenceEncoder ?body" "[]" r] by simp
  show ?thesis
    using False a b c
    by (simp add: decode_extensions_def readable_positioned MessageEnd_positioned
        EndReached_positioned DERSequenceEncoder_not_empty Let_def)
qed

lemma length_DERSequenceEncoder: "length body \<le> length (DERSequenceEncoder body)"
  by (simp add: DERSequenceEncoder_def)


lemma decode_of_encoding:
  assumes t0: "self_delimiting (DEREncodeGeneralTime C) (BERDecodeTime C) t0"
    and t1: "self_delimiting (DEREncodeGeneralTime C) (BERDecodeTime C) t1"
    and ss: "\<forall>s \<in> set ss. self_delimiting (subject_encode C) (subject_decode C) s"
    and k: "self_delimiting (key_encode C) (key_decode C) k"
    and es: "\<forall>e \<in> set es. self_delimiting (extension_encode C) (extension_decode C) e"
    and V: "V = DERSequenceEncoder (DEREncodeGeneralTime C t0 @ DEREncodeGeneralTime C t1)"
    and N: "N = DERSequenceEncoder (concat (map (subject_encode C) ss))"
    and E: "E = (if es \<noteq> [] then DERSequenceEncoder (concat (map (extension_encode C) es))
                 else [])"
    and len: "length (DERSequenceEncoder (V @ N @ key_encode C k @ E)) < 2 ^ 64"
    and d: "content d = DERSequenceEncoder (V @ N @ key_encode C k @ E)"
  shows "decode C d = Some (Inr (), d\<lparr>m_notBefore := t0, m_notAfter := t1,
           m_subjectDescriptionList := ss, m_key := k, m_extensionList := es\<rparr>)"
proof -
  let ?K = "key_encode C k"
  have body: "length (V @ N @ ?K @ E) < 2 ^ 64"
    using len length_DERSequenceEncoder [of "V @ N @ ?K @ E"] by simp
  have lV: "length (DEREncodeGeneralTime C t0 @ DEREncodeGeneralTime C t1) < 2 ^ 64"
    using body length_DERSequenceEncoder
      [of "DEREncodeGeneralTime C t0 @ DEREncodeGeneralTime C t1"]
    unfolding V by simp
  have lN: "length (concat (map (subject_encode C) ss)) < 2 ^ 64"
    using body length_DERSequenceEncoder [of "concat (map (subject_encode C) ss)"]
    unfolding N by simp
  have lE: "length (concat (map (extension_encode C) es)) < 2 ^ 64"
  proof (cases "es = []")
    case True
    then show ?thesis by simp
  next
    case False
    then show ?thesis
      using body length_DERSequenceEncoder [of "concat (map (extension_encode C) es)"]
      unfolding E by simp
  qed
  have 0: "BERSequenceDecoder (content d) = Inr (positioned (V @ N @ ?K @ E) [])"
    using BERSequenceDecoder_DERSequenceEncoder [OF body, of "[]"] d by simp
  have 1: "decode_validity C (positioned (V @ N @ ?K @ E) []) d
             = Some (Inr (positioned (N @ ?K @ E) []), d\<lparr>m_notBefore := t0, m_notAfter := t1\<rparr>)"
    unfolding V
    using t0 t1 lV by (intro decode_validity_encoded) (simp_all add: self_delimiting_def)
  have 2: "decode_name C (positioned (N @ ?K @ E) []) c'
             = Some (Inr (positioned (?K @ E) []), c'\<lparr>m_subjectDescriptionList := ss\<rparr>)" for c'
    unfolding N
    using ss lN by (intro decode_name_encoded) (simp_all add: self_delimiting_def)
  have 3: "decode_key C (positioned (?K @ E) []) c'
             = Some (Inr (positioned E []), c'\<lparr>m_key := k\<rparr>)" for c'
    using k by (intro decode_key_encoded) (simp add: self_delimiting_def)
  have 4: "decode_extensions C (positioned E []) c'
             = Some (Inr (positioned [] []), c'\<lparr>m_extensionList := es\<rparr>)" for c'
    unfolding E
    using es lE by (intro decode_extensions_encoded) (simp_all add: self_delimiting_def)
  show ?thesis
    by (simp add: decode_def 0 1 2 3 4 and_then_def MessageEnd_positioned)
qed

lemmas decode_eval = decode_def and_then_def decode_validity_def decode_name_def
  decode_key_def decode_extensions_def BERSequenceDecoder_def BERLengthDecode_def
  SEQUENCE_CONSTRUCTED_def readable_def through_def consumed_def MessageEnd_def
  EndReached_def tlv_codecs_def tlv_decode_def tlv_time_decode_def decode_elements.simps
  Let_def

lemmas encode_eval = encode_def tlv_codecs_def tlv_encode_def DERSequenceEncoder_def
  DERLengthEncode_def SEQUENCE_CONSTRUCTED_def Let_def

lemma tlv_self_delimiting:
  "length v < 128 \<Longrightarrow> self_delimiting (tlv_encode tag) (tlv_decode tag) v"
  by (simp add: self_delimiting_def tlv_encode_def tlv_decode_def unat_of_nat)

lemma tlv_time_self_delimiting:
  "0 \<le> t \<Longrightarrow> t < 256 \<Longrightarrow>
   self_delimiting (\<lambda>t. tlv_encode 0x18 [of_int t]) tlv_time_decode t"
  by (simp add: self_delimiting_def tlv_encode_def tlv_decode_def tlv_time_decode_def
      uint_word_of_int)

lemma content_encode_cert_example:
  "content (encode tlv_codecs cert_example) =
     [0x30, 0x1B, 0x30, 0x06, 0x18, 0x01, 0x05, 0x18, 0x01, 0x09,
      0x30, 0x07, 0x30, 0x02, 0x01, 0x02, 0x30, 0x01, 0x03, 0x30, 0x03, 0x07, 0x07, 0x07,
      0x30, 0x03, 0x30, 0x01, 0x04]"
  by (simp add: encode_eval cert_example_def)

lemma within_schema_cert_example: "within_schema tlv_codecs cert_example"
  unfolding within_schema_def content_encode_cert_example
  by (simp add: tlv_codecs_def cert_example_def tlv_self_delimiting tlv_time_self_delimiting)

text \<open>
  C1. For every certificate within the schema, \<open>decode\<close> on the bytes that \<open>encode\<close>
  produced returns without an exception and sets the four fields to those of the
  encoded certificate: \<open>notBefore\<close>, \<open>notAfter\<close>, the subject descriptions in order, the
  key and the extensions in order. This holds in whatever object holds the bytes, and in
  the encoded object itself, which \<open>decode\<close> leaves as \<open>encode\<close> left it.
\<close>

theorem decode_encode_round_trip:
  assumes "within_schema C c" and "content d = content (encode C c)"
  shows "decode C d = Some (Inr (), d\<lparr>m_notBefore := m_notBefore c,
           m_notAfter := m_notAfter c,
           m_subjectDescriptionList := m_subjectDescriptionList c,
           m_key := m_key c, m_extensionList := m_extensionList c\<rparr>)
       \<and> decode C (encode C c) = Some (Inr (), encode C c)"
proof -
  have enc: "content (encode C c) =
      DERSequenceEncoder
        (DERSequenceEncoder
           (DEREncodeGeneralTime C (m_notBefore c) @ DEREncodeGeneralTime C (m_notAfter c))
         @ DERSequenceEncoder (concat (map (subject_encode C) (m_subjectDescriptionList c)))
         @ key_encode C (m_key c)
         @ (if m_extensionList c \<noteq> []
            then DERSequenceEncoder (concat (map (extension_encode C) (m_extensionList c)))
            else []))"
    by (simp add: encode_def Let_def)
  have any: "decode C d' = Some (Inr (), d'\<lparr>m_notBefore := m_notBefore c,
           m_notAfter := m_notAfter c,
           m_subjectDescriptionList := m_subjectDescriptionList c,
           m_key := m_key c, m_extensionList := m_extensionList c\<rparr>)"
    if "content d' = content (encode C c)" for d' :: "('a, 'b, 'c) Certificate"
    using assms(1) that unfolding within_schema_def enc
    by (intro decode_of_encoding [OF _ _ _ _ _ refl refl refl]) simp_all
  have same: "(encode C c)\<lparr>m_notBefore := m_notBefore c,
           m_notAfter := m_notAfter c,
           m_subjectDescriptionList := m_subjectDescriptionList c,
           m_key := m_key c, m_extensionList := m_extensionList c\<rparr> = encode C c"
    by (simp add: encode_def Let_def)
  show ?thesis
    using any [OF assms(2)] any [of "encode C c"] same by simp
qed

text \<open>
  The round trip on the certificate \<open>cert_example\<close>, decoded into \<open>cert_blank\<close> and into
  itself.
\<close>

theorem decode_encode_round_trip_witness:
  "decode tlv_codecs
     (cert_blank\<lparr>content :=
        [0x30, 0x1B, 0x30, 0x06, 0x18, 0x01, 0x05, 0x18, 0x01, 0x09,
         0x30, 0x07, 0x30, 0x02, 0x01, 0x02, 0x30, 0x01, 0x03, 0x30, 0x03, 0x07, 0x07, 0x07,
         0x30, 0x03, 0x30, 0x01, 0x04]\<rparr>)
   = Some (Inr (),
      cert_blank\<lparr>content :=
        [0x30, 0x1B, 0x30, 0x06, 0x18, 0x01, 0x05, 0x18, 0x01, 0x09,
         0x30, 0x07, 0x30, 0x02, 0x01, 0x02, 0x30, 0x01, 0x03, 0x30, 0x03, 0x07, 0x07, 0x07,
         0x30, 0x03, 0x30, 0x01, 0x04],
        m_notBefore := 5, m_notAfter := 9, m_subjectDescriptionList := [[1, 2], [3]],
        m_key := [7, 7, 7], m_extensionList := [[4]]\<rparr>)
   \<and> decode tlv_codecs (encode tlv_codecs cert_example)
     = Some (Inr (), encode tlv_codecs cert_example)"
proof -
  have c: "content (cert_blank\<lparr>content :=
        [0x30, 0x1B, 0x30, 0x06, 0x18, 0x01, 0x05, 0x18, 0x01, 0x09,
         0x30, 0x07, 0x30, 0x02, 0x01, 0x02, 0x30, 0x01, 0x03, 0x30, 0x03, 0x07, 0x07, 0x07,
         0x30, 0x03, 0x30, 0x01, 0x04]\<rparr>) = content (encode tlv_codecs cert_example)"
    by (simp add: content_encode_cert_example)
  have f: "m_notBefore cert_example = 5" "m_notAfter cert_example = 9"
    "m_subjectDescriptionList cert_example = [[1, 2], [3]]" "m_key cert_example = [7, 7, 7]"
    "m_extensionList cert_example = [[4]]"
    by (simp_all add: cert_example_def)
  from decode_encode_round_trip [OF within_schema_cert_example c] show ?thesis
    by (simp add: f)
qed


subsection \<open>What a failed call of decode leaves behind\<close>

lemma decode_validity_Inr:
  assumes "decode_validity C i c = Some (Inr i', c')"
  shows "\<exists>validity t0 validity1 t1 validity2.
           BERSequenceDecoder (readable i) = Inr validity
           \<and> through (BERDecodeTime C) validity = Inr (t0, validity1)
           \<and> through (BERDecodeTime C) validity1 = Inr (t1, validity2)
           \<and> c' = c\<lparr>m_notBefore := t0, m_notAfter := t1\<rparr>"
  using assms
  by (auto simp: decode_validity_def Let_def split: sum.splits prod.splits)

lemma decode_name_shape:
  assumes "decode_name C i c = Some (r, c')"
  shows "\<exists>ss. c' = c\<lparr>m_subjectDescriptionList := ss\<rparr>"
  using assms
  by (auto simp: decode_name_def Let_def split: sum.splits prod.splits option.splits)

lemma decode_key_Inl:
  assumes "decode_key C i c = Some (Inl e, c')"
  shows "c' = c"
  using assms by (auto simp: decode_key_def split: sum.splits prod.splits)

lemma decode_key_Inr:
  assumes "decode_key C i c = Some (Inr i', c')"
  shows "\<exists>k. c' = c\<lparr>m_key := k\<rparr>"
  using assms by (auto simp: decode_key_def split: sum.splits prod.splits)

lemma decode_extensions_shape:
  assumes "decode_extensions C i c = Some (r, c')"
  shows "\<exists>es. c' = c\<lparr>m_extensionList := es\<rparr>"
  using assms
  by (auto simp: decode_extensions_def Let_def
      split: sum.splits prod.splits option.splits if_splits)

lemma and_then_Some:
  assumes "and_then m f = Some (r, c')"
  shows "(\<exists>e. m = Some (Inl e, c') \<and> r = Inl e)
         \<or> (\<exists>i c1. m = Some (Inr i, c1) \<and> f i c1 = Some (r, c'))"
  using assms by (auto simp: and_then_def split: option.splits sum.splits prod.splits)















subsection \<open>The validity period that decode accepts\<close>

lemma decode_Inr:
  assumes "decode C c = Some (Inr u, c')"
  shows "\<exists>idCert i1 c1 i2 c2 i3 c3 i4.
           BERSequenceDecoder (content c) = Inr idCert
           \<and> decode_validity C idCert c = Some (Inr i1, c1)
           \<and> decode_name C i1 c1 = Some (Inr i2, c2)
           \<and> decode_key C i2 c2 = Some (Inr i3, c3)
           \<and> decode_extensions C i3 c3 = Some (Inr i4, c')"
proof (cases "BERSequenceDecoder (content c)")
  case (Inl a)
  with assms show ?thesis by (simp add: decode_def)
next
  case (Inr idCert)
  let ?m = "and_then (and_then (and_then (decode_validity C idCert c)
                  (decode_name C)) (decode_key C)) (decode_extensions C)"
  from assms Inr obtain i4 where m: "?m = Some (Inr i4, c')"
    by (auto simp: decode_def split: option.splits sum.splits prod.splits)
  from and_then_Some [OF m] obtain i3 c3 where
    3: "and_then (and_then (decode_validity C idCert c) (decode_name C)) (decode_key C)
          = Some (Inr i3, c3)"
    and x: "decode_extensions C i3 c3 = Some (Inr i4, c')"
    by auto
  from and_then_Some [OF 3] obtain i2 c2 where
    2: "and_then (decode_validity C idCert c) (decode_name C) = Some (Inr i2, c2)"
    and k: "decode_key C i2 c2 = Some (Inr i3, c3)"
    by auto
  from and_then_Some [OF 2] obtain i1 c1 where
    "decode_validity C idCert c = Some (Inr i1, c1)"
    and "decode_name C i1 c1 = Some (Inr i2, c2)"
    by auto
  with Inr k x show ?thesis by blast
qed

lemma decode_reversed_record:
  "decode tlv_codecs
     (cert_blank\<lparr>content :=
        [0x30, 0x16, 0x30, 0x06, 0x18, 0x01, 0x09, 0x18, 0x01, 0x05,
         0x30, 0x07, 0x30, 0x02, 0x01, 0x02, 0x30, 0x01, 0x03, 0x30, 0x03, 0x07, 0x07, 0x07]\<rparr>)
   = Some (Inr (),
      cert_blank\<lparr>content :=
        [0x30, 0x16, 0x30, 0x06, 0x18, 0x01, 0x09, 0x18, 0x01, 0x05,
         0x30, 0x07, 0x30, 0x02, 0x01, 0x02, 0x30, 0x01, 0x03, 0x30, 0x03, 0x07, 0x07, 0x07],
        m_notBefore := 9, m_notAfter := 5, m_subjectDescriptionList := [[1, 2], [3]],
        m_key := [7, 7, 7], m_extensionList := []\<rparr>)"
  by (simp add: decode_eval cert_blank_def)

text \<open>
  C3, as amended. When \<open>decode\<close> returns, \<open>notBefore\<close> and \<open>notAfter\<close> are the first and
  the second time read from the validity sequence of the record. They are not compared:
  nothing more is required of them.
\<close>

theorem decode_success_validity:
  assumes "decode C c = Some (Inr (), c')"
  shows "\<exists>idCert validity validity1 validity2.
           BERSequenceDecoder (content c) = Inr idCert
           \<and> BERSequenceDecoder (readable idCert) = Inr validity
           \<and> through (BERDecodeTime C) validity = Inr (m_notBefore c', validity1)
           \<and> through (BERDecodeTime C) validity1 = Inr (m_notAfter c', validity2)"
proof -
  from decode_Inr [OF assms] obtain idCert i1 c1 i2 c2 i3 c3 i4 where
    0: "BERSequenceDecoder (content c) = Inr idCert"
    and v: "decode_validity C idCert c = Some (Inr i1, c1)"
    and n: "decode_name C i1 c1 = Some (Inr i2, c2)"
    and k: "decode_key C i2 c2 = Some (Inr i3, c3)"
    and x: "decode_extensions C i3 c3 = Some (Inr i4, c')"
    by blast
  from decode_validity_Inr [OF v] obtain validity t0 validity1 t1 validity2 where
    s: "BERSequenceDecoder (readable idCert) = Inr validity"
    "through (BERDecodeTime C) validity = Inr (t0, validity1)"
    "through (BERDecodeTime C) validity1 = Inr (t1, validity2)"
    and c1: "c1 = c\<lparr>m_notBefore := t0, m_notAfter := t1\<rparr>"
    by blast
  from decode_name_shape [OF n] obtain ss where "c2 = c1\<lparr>m_subjectDescriptionList := ss\<rparr>"
    by blast
  moreover from decode_key_Inr [OF k] obtain k' where "c3 = c2\<lparr>m_key := k'\<rparr>" by blast
  moreover from decode_extensions_shape [OF x] obtain es where
    "c' = c3\<lparr>m_extensionList := es\<rparr>" by blast
  ultimately have "m_notBefore c' = t0" "m_notAfter c' = t1"
    using c1 by simp_all
  with 0 s show ?thesis by blast
qed

text \<open>
  A record whose validity holds the time 9 and then the time 5.
\<close>

theorem decode_success_validity_witness:
  "\<exists>idCert validity validity1 validity2.
     BERSequenceDecoder
       [0x30, 0x16, 0x30, 0x06, 0x18, 0x01, 0x09, 0x18, 0x01, 0x05,
        0x30, 0x07, 0x30, 0x02, 0x01, 0x02, 0x30, 0x01, 0x03, 0x30, 0x03, 0x07, 0x07, 0x07]
       = Inr idCert
     \<and> BERSequenceDecoder (readable idCert) = Inr validity
     \<and> through tlv_time_decode validity = Inr (9, validity1)
     \<and> through tlv_time_decode validity1 = Inr (5, validity2)"
  using decode_success_validity [OF decode_reversed_record]
  by (simp add: tlv_codecs_def)

text \<open>
  The claim C3 as stated fails on that record: \<open>decode\<close> returns, with \<open>notBefore = 9\<close>
  after \<open>notAfter = 5\<close>.
\<close>

theorem decode_success_validity_counterexample:
  "decode tlv_codecs
     (cert_blank\<lparr>content :=
        [0x30, 0x16, 0x30, 0x06, 0x18, 0x01, 0x09, 0x18, 0x01, 0x05,
         0x30, 0x07, 0x30, 0x02, 0x01, 0x02, 0x30, 0x01, 0x03, 0x30, 0x03, 0x07, 0x07, 0x07]\<rparr>)
   = Some (Inr (),
      cert_blank\<lparr>content :=
        [0x30, 0x16, 0x30, 0x06, 0x18, 0x01, 0x09, 0x18, 0x01, 0x05,
         0x30, 0x07, 0x30, 0x02, 0x01, 0x02, 0x30, 0x01, 0x03, 0x30, 0x03, 0x07, 0x07, 0x07],
        m_notBefore := 9, m_notAfter := 5, m_subjectDescriptionList := [[1, 2], [3]],
        m_key := [7, 7, 7], m_extensionList := []\<rparr>)
   \<and> \<not> m_notBefore (cert_blank\<lparr>m_notBefore := 9, m_notAfter := 5\<rparr>)
         \<le> m_notAfter (cert_blank\<lparr>m_notBefore := 9, m_notAfter := 5\<rparr>)"
  by (simp add: decode_eval cert_blank_def)

end
